theory Spec2Isabelle
  imports Main "HOL-Library.Sublist" "HOL-Library.AList"
begin

section \<open>Strings and JSON scalars\<close>

text \<open>
  A string is the list of the bytes of its UTF-8 encoding: an ASCII character is one
  byte, any other code point is a sequence of two to four bytes, and the length of the
  list is the number of bytes that the operating system sees. JSON values that cross the
  boundary of the engine and of the HTTP layer are scalars.
\<close>

datatype jval = JNull | JBool bool | JNum int | JStr string

text \<open>
  \<^verbatim>\<open>String.prototype.trim\<close> strips white space and line terminators from both
  ends. These are the code points U+0009 to U+000D, U+0020, U+00A0, U+1680, U+2000 to
  U+200A, U+2028, U+2029, U+202F, U+205F, U+3000 and U+FEFF, listed here by their
  encodings.
\<close>

definition whiteSpaceCodes :: "string list" where
  "whiteSpaceCodes =
     [[CHR 0x09], [CHR 0x0A], [CHR 0x0B], [CHR 0x0C], [CHR 0x0D], [CHR 0x20],
      [CHR 0xC2, CHR 0xA0],
      [CHR 0xE1, CHR 0x9A, CHR 0x80],
      [CHR 0xE2, CHR 0x80, CHR 0x80], [CHR 0xE2, CHR 0x80, CHR 0x81],
      [CHR 0xE2, CHR 0x80, CHR 0x82], [CHR 0xE2, CHR 0x80, CHR 0x83],
      [CHR 0xE2, CHR 0x80, CHR 0x84], [CHR 0xE2, CHR 0x80, CHR 0x85],
      [CHR 0xE2, CHR 0x80, CHR 0x86], [CHR 0xE2, CHR 0x80, CHR 0x87],
      [CHR 0xE2, CHR 0x80, CHR 0x88], [CHR 0xE2, CHR 0x80, CHR 0x89],
      [CHR 0xE2, CHR 0x80, CHR 0x8A],
      [CHR 0xE2, CHR 0x80, CHR 0xA8], [CHR 0xE2, CHR 0x80, CHR 0xA9],
      [CHR 0xE2, CHR 0x80, CHR 0xAF],
      [CHR 0xE2, CHR 0x81, CHR 0x9F],
      [CHR 0xE3, CHR 0x80, CHR 0x80],
      [CHR 0xEF, CHR 0xBB, CHR 0xBF]]"

text \<open>The length of the code, of a given list of codes, with which a string begins.\<close>

definition leadingCode :: "string list \<Rightarrow> string \<Rightarrow> nat" where
  "leadingCode codes s =
     (case find (\<lambda>code. prefix code s) codes of None \<Rightarrow> 0 | Some code \<Rightarrow> length code)"

function stripLeading :: "string list \<Rightarrow> string \<Rightarrow> string" where
  "stripLeading codes s =
     (if leadingCode codes s = 0 then s
      else stripLeading codes (drop (leadingCode codes s) s))"
  by pat_completeness auto
termination
proof (relation "measure (\<lambda>(codes, s). length s)")
  show "wf (measure (\<lambda>(codes, s). length s))" by simp
next
  fix codes :: "string list" and s :: string
  assume pos: "leadingCode codes s \<noteq> 0"
  then obtain code where "find (\<lambda>code. prefix code s) codes = Some code" "length code \<noteq> 0"
    by (auto simp: leadingCode_def split: option.splits)
  then have "prefix code s" "code \<noteq> []"
    by (auto simp: find_Some_iff)
  then have "s \<noteq> []" by auto
  with pos show "((codes, drop (leadingCode codes s) s), (codes, s))
                   \<in> measure (\<lambda>(codes, s). length s)"
    by simp
qed

declare stripLeading.simps [simp del]

definition trim :: "string \<Rightarrow> string" where
  "trim s =
     rev (stripLeading (map rev whiteSpaceCodes) (rev (stripLeading whiteSpaceCodes s)))"

definition quoted :: "string \<Rightarrow> string" where
  "quoted s = [CHR 0x27] @ s @ [CHR 0x27]"

text \<open>The test \<^verbatim>\<open>/^[a-zA-Z_][a-zA-Z0-9_]*$/.test(name)\<close> of both route handlers.\<close>

definition isAsciiLetter :: "char \<Rightarrow> bool" where
  "isAsciiLetter c =
     (let n = (of_char c :: nat) in (65 \<le> n \<and> n \<le> 90) \<or> (97 \<le> n \<and> n \<le> 122))"

definition isAsciiDigit :: "char \<Rightarrow> bool" where
  "isAsciiDigit c = (let n = (of_char c :: nat) in 48 \<le> n \<and> n \<le> 57)"

definition validObjectName :: "string \<Rightarrow> bool" where
  "validObjectName name =
     (case name of
        [] \<Rightarrow> False
      | c # cs \<Rightarrow> (isAsciiLetter c \<or> c = CHR ''_'') \<and>
                 list_all (\<lambda>d. isAsciiLetter d \<or> isAsciiDigit d \<or> d = CHR ''_'') cs)"

section \<open>Paths\<close>

text \<open>
  \<^verbatim>\<open>normalize\<close>, \<^verbatim>\<open>resolve\<close> and \<^verbatim>\<open>join\<close> are imported from
  \<^verbatim>\<open>node:path\<close>; the POSIX flavour is modelled. Its \<^verbatim>\<open>normalizeString\<close>
  reads the path segment by segment: empty segments and \<^verbatim>\<open>.\<close> are dropped,
  \<^verbatim>\<open>..\<close> removes the segment before it when there is one that is not itself
  \<^verbatim>\<open>..\<close>, and is kept only when the path may climb above its start.
\<close>

fun splitOn :: "char \<Rightarrow> string \<Rightarrow> string list" where
  "splitOn c [] = [[]]"
| "splitOn c (x # xs) =
     (if x = c then [] # splitOn c xs
      else (case splitOn c xs of [] \<Rightarrow> [[x]] | s # ss \<Rightarrow> (x # s) # ss))"

fun joinSep :: "string \<Rightarrow> string list \<Rightarrow> string" where
  "joinSep sep [] = []"
| "joinSep sep [s] = s"
| "joinSep sep (s # t # ss) = s @ sep @ joinSep sep (t # ss)"

text \<open>The stack of kept segments is held with its top first.\<close>

definition normStep :: "bool \<Rightarrow> string list \<Rightarrow> string \<Rightarrow> string list" where
  "normStep allowAboveRoot stk seg =
     (if seg = [] \<or> seg = ''.'' then stk
      else if seg = ''..'' then
        (case stk of
           [] \<Rightarrow> if allowAboveRoot then [''..''] else []
         | lastSeg # rest \<Rightarrow>
             if lastSeg \<noteq> ''..'' then rest
             else if allowAboveRoot then ''..'' # stk else stk)
      else seg # stk)"

definition normSegments :: "string \<Rightarrow> bool \<Rightarrow> string list" where
  "normSegments path allowAboveRoot =
     rev (foldl (normStep allowAboveRoot) [] (splitOn CHR ''/'' path))"

definition normalizeString :: "string \<Rightarrow> bool \<Rightarrow> string" where
  "normalizeString path allowAboveRoot = joinSep ''/'' (normSegments path allowAboveRoot)"

definition isAbsolute :: "string \<Rightarrow> bool" where
  "isAbsolute path = (path \<noteq> [] \<and> hd path = CHR ''/'')"

definition normalize :: "string \<Rightarrow> string" where
  "normalize path =
     (if path = [] then ''.''
      else
        (let trailingSeparator = (last path = CHR ''/'');
             p = normalizeString path (\<not> isAbsolute path)
         in if p = [] then
              (if isAbsolute path then ''/'' else if trailingSeparator then ''./'' else ''.'')
            else
              (let p' = (if trailingSeparator then p @ ''/'' else p)
               in if isAbsolute path then ''/'' @ p' else p')))"

text \<open>
  \<^verbatim>\<open>resolve(...args)\<close> walks its arguments from the right, then the current
  directory, until the accumulated path is absolute; empty arguments are skipped.
\<close>

fun resolveLoop :: "string list \<Rightarrow> string \<Rightarrow> string \<times> bool" where
  "resolveLoop [] resolvedPath = (resolvedPath, False)"
| "resolveLoop (p # ps) resolvedPath =
     (if p = [] then resolveLoop ps resolvedPath
      else if isAbsolute p then (p @ ''/'' @ resolvedPath, True)
      else resolveLoop ps (p @ ''/'' @ resolvedPath))"

definition resolve :: "string \<Rightarrow> string list \<Rightarrow> string" where
  "resolve cwd args =
     (case resolveLoop (rev args @ [cwd]) [] of
        (resolvedPath, resolvedAbsolute) \<Rightarrow>
          (let n = normalizeString resolvedPath (\<not> resolvedAbsolute)
           in if resolvedAbsolute then ''/'' @ n
              else if n \<noteq> [] then n else ''.''))"

definition join :: "string list \<Rightarrow> string" where
  "join args =
     (let joined = joinSep ''/'' (filter (\<lambda>a. a \<noteq> []) args)
      in if joined = [] then ''.'' else normalize joined)"

fun includesStr :: "string \<Rightarrow> string \<Rightarrow> bool" where
  "includesStr [] sub = (sub = [])"
| "includesStr (x # xs) sub = (prefix sub (x # xs) \<or> includesStr xs sub)"

section \<open>The workspace: file system, engine binary and database files\<close>

text \<open>
  A directory as \<^verbatim>\<open>readdirSync(dir, {withFileTypes: true})\<close> reports it: each entry
  has a name and is a directory or something else. A directory that cannot be listed makes
  \<^verbatim>\<open>readdirSync\<close> throw.
\<close>

datatype node = Other | Dir bool "(string \<times> node) list"

text \<open>
  The tables of one \<^verbatim>\<open>workspace.duckdb\<close> file, with the columns the route handlers
  read and write. A table is the list of its rows in the order the engine scans them.
  The \<^verbatim>\<open>enum_values\<close> column holds JSON text; it is kept as what
  \<^verbatim>\<open>JSON.parse\<close> makes of it, and \<^verbatim>\<open>JSON.stringify\<close> of a string array
  followed by \<^verbatim>\<open>JSON.parse\<close> gives the array back.
\<close>

datatype json_col = EmptyText | Unparsable | ArrayText "string list"

record object_row =
  obj_id :: string
  obj_name :: string

record field_row =
  fld_id :: string
  fld_object_id :: string
  fld_enum_values :: "json_col option"
  fld_enum_colors :: "string option"

record entry_row =
  ent_id :: string
  ent_object_id :: string

record entry_field_row =
  ef_entry_id :: string
  ef_field_id :: string
  ef_value :: "string option"

record db =
  objects_tbl :: "object_row list"
  fields_tbl :: "field_row list"
  entries_tbl :: "entry_row list"
  entry_fields_tbl :: "entry_field_row list"

text \<open>
  What the process sees. \<open>databases w p = None\<close> means that the engine cannot open the
  file \<open>p\<close> (no such file, not a database). \<open>engineFails w p sql\<close> says that the
  engine process, run on the file \<open>p\<close> with the statement \<open>sql\<close>, exits with an error
  or exceeds its time limit (a table is missing, the file is locked, and so on).
\<close>

record world =
  env_OPENCLAW_WORKSPACE :: "string option"
  homedir :: string
  cwd :: string
  existsSync :: "string \<Rightarrow> bool"
  readdirTree :: "string \<Rightarrow> node"
  which_duckdb :: bool
  databases :: "string \<rightharpoonup> db"
  engineFails :: "string \<Rightarrow> string \<Rightarrow> bool"

definition resolveWorkspaceRoot :: "world \<Rightarrow> string option" where
  "resolveWorkspaceRoot w =
     (let candidates =
            filter (\<lambda>c. c \<noteq> [])
              ((case env_OPENCLAW_WORKSPACE w of None \<Rightarrow> [] | Some e \<Rightarrow> [e]) @
               [join [homedir w, ''.openclaw'', ''workspace'']])
      in find (existsSync w) candidates)"

definition resolveDuckdbBin :: "world \<Rightarrow> string option" where
  "resolveDuckdbBin w =
     (let home = homedir w;
          candidates =
            [join [home, ''.duckdb'', ''cli'', ''latest'', ''duckdb''],
             join [home, ''.local'', ''bin'', ''duckdb''],
             ''/opt/homebrew/bin/duckdb'',
             ''/usr/local/bin/duckdb'',
             ''/usr/bin/duckdb'']
      in case find (existsSync w) candidates of
           Some bin \<Rightarrow> Some bin
         | None \<Rightarrow> if which_duckdb w then Some ''duckdb'' else None)"

subsection \<open>Discovery of database files\<close>

definition skippedDirectory :: "string \<Rightarrow> bool" where
  "skippedDirectory name =
     (prefix ''.'' name \<or> name = ''tmp'' \<or> name = ''exports'' \<or> name = ''node_modules'')"

fun isDirectory :: "node \<Rightarrow> bool" where
  "isDirectory (Dir _ _) = True"
| "isDirectory Other = False"

text \<open>
  The inner function \<^verbatim>\<open>walk\<close> of \<^verbatim>\<open>discoverDuckDBPaths\<close>; it returns what it
  pushes on \<^verbatim>\<open>results\<close>, in the order of the pushes.
\<close>

fun walk :: "(string \<Rightarrow> bool) \<Rightarrow> node \<Rightarrow> string \<Rightarrow> nat \<Rightarrow> (string \<times> nat) list"
  and walkEntries ::
    "(string \<Rightarrow> bool) \<Rightarrow> (string \<times> node) list \<Rightarrow> string \<Rightarrow> nat \<Rightarrow> (string \<times> nat) list"
where
  "walk ex Other dir depth =
     (let dbFile = join [dir, ''workspace.duckdb'']
      in if ex dbFile then [(dbFile, depth)] else [])"
| "walk ex (Dir listable ents) dir depth =
     (let dbFile = join [dir, ''workspace.duckdb'']
      in (if ex dbFile then [(dbFile, depth)] else []) @
         (if listable then walkEntries ex ents dir depth else []))"
| "walkEntries ex [] dir depth = []"
| "walkEntries ex (e # rest) dir depth =
     (if \<not> isDirectory (snd e) \<or> skippedDirectory (fst e) then []
      else walk ex (snd e) (join [dir, fst e]) (depth + 1)) @
     walkEntries ex rest dir depth"

text \<open>
  \<open>discoverResults\<close> is the array \<^verbatim>\<open>results\<close> after the walk and the sort by depth;
  \<^verbatim>\<open>Array.prototype.sort\<close> is stable, as is \<^const>\<open>sort_key\<close>.
\<close>

definition discoverResults :: "world \<Rightarrow> string \<Rightarrow> (string \<times> nat) list" where
  "discoverResults w wsRoot =
     sort_key snd (walk (existsSync w) (readdirTree w wsRoot) wsRoot 0)"

definition discoverDuckDBPaths :: "world \<Rightarrow> string option \<Rightarrow> string list" where
  "discoverDuckDBPaths w root =
     (case (case root of Some r \<Rightarrow> Some r | None \<Rightarrow> resolveWorkspaceRoot w) of
        None \<Rightarrow> []
      | Some wsRoot \<Rightarrow>
          if wsRoot = [] then [] else map fst (discoverResults w wsRoot))"

subsection \<open>The query and exec bridge\<close>

text \<open>
  A query is represented by what it computes: a function from the tables to the rows of
  its result. \<open>runEngine\<close> is the \<^verbatim>\<open>execSync\<close> call of a query with the result
  parsed; \<open>None\<close> stands for the exception of a failed call.
\<close>

definition runEngine :: "world \<Rightarrow> string \<Rightarrow> (db \<Rightarrow> 'r list) \<Rightarrow> 'r list option" where
  "runEngine w dbFile q = (case databases w dbFile of None \<Rightarrow> None | Some d \<Rightarrow> Some (q d))"

definition duckdbQueryOnFile :: "world \<Rightarrow> string \<Rightarrow> (db \<Rightarrow> 'r list) \<Rightarrow> 'r list" where
  "duckdbQueryOnFile w dbFilePath q =
     (case resolveDuckdbBin w of
        None \<Rightarrow> []
      | Some bin \<Rightarrow> (case runEngine w dbFilePath q of None \<Rightarrow> [] | Some rows \<Rightarrow> rows))"

text \<open>
  A statement is given by its SQL text, built as the handler builds it, and by what the
  engine does with it when it runs: a function from the tables to the tables. The text
  decides whether the call can be made at all. \<^verbatim>\<open>sqlEscape\<close> doubles each quote
  for SQL; the bridge then replaces each quote by \<^verbatim>\<open>'\''\<close> for the shell and puts
  the command together. \<^verbatim>\<open>execSync\<close> throws on a command with a NUL character, and
  the kernel refuses an argument of 128 KiB or more, which the command is for
  \<^verbatim>\<open>/bin/sh -c\<close>. When the command passes the shell, the two quoting passes deliver
  the interpolated values to the engine unchanged.
\<close>

definition sqlEscape :: "string \<Rightarrow> string" where
  "sqlEscape s = concat (map (\<lambda>c. if c = CHR 0x27 then [c, c] else [c]) s)"

definition shellEscape :: "string \<Rightarrow> string" where
  "shellEscape s =
     concat (map (\<lambda>c. if c = CHR 0x27 then [CHR 0x27, CHR 0x5C, CHR 0x27, CHR 0x27] else [c]) s)"

definition execCommand :: "string \<Rightarrow> string \<Rightarrow> string \<Rightarrow> string" where
  "execCommand bin dbFilePath sql =
     quoted bin @ '' '' @ quoted dbFilePath @ '' '' @ quoted (shellEscape sql)"

definition commandRefused :: "string \<Rightarrow> bool" where
  "commandRefused command = (CHR 0x00 \<in> set command \<or> 131072 \<le> int (length command))"

definition duckdbExecOnFile ::
  "world \<Rightarrow> string \<Rightarrow> string \<Rightarrow> (db \<Rightarrow> db) \<Rightarrow> bool \<times> world"
where
  "duckdbExecOnFile w dbFilePath sql stmt =
     (case resolveDuckdbBin w of
        None \<Rightarrow> (False, w)
      | Some bin \<Rightarrow>
          if commandRefused (execCommand bin dbFilePath sql) then (False, w)
          else
            (case databases w dbFilePath of
               None \<Rightarrow> (False, w)
             | Some d \<Rightarrow>
                 if engineFails w dbFilePath sql then (False, w)
                 else (True, w\<lparr>databases := (databases w)(dbFilePath \<mapsto> stmt d)\<rparr>)))"

text \<open>\<^verbatim>\<open>SELECT id FROM objects WHERE name = '<name>' LIMIT 1\<close>\<close>

definition selectObjectId :: "string \<Rightarrow> db \<Rightarrow> string list" where
  "selectObjectId name d = take 1 (map obj_id (filter (\<lambda>r. obj_name r = name) (objects_tbl d)))"

text \<open>
  The loop of \<^verbatim>\<open>findDuckDBForObject\<close>: the first file on which the query succeeds
  with at least one row; a file on which the call fails is passed over.
\<close>

fun findLoop :: "world \<Rightarrow> string \<Rightarrow> string list \<Rightarrow> string option" where
  "findLoop w objectName [] = None"
| "findLoop w objectName (dbp # rest) =
     (case runEngine w dbp (selectObjectId objectName) of
        None \<Rightarrow> findLoop w objectName rest
      | Some rows \<Rightarrow> if rows \<noteq> [] then Some dbp else findLoop w objectName rest)"

definition findDuckDBForObject :: "world \<Rightarrow> string \<Rightarrow> string option" where
  "findDuckDBForObject w objectName =
     (let dbPaths = discoverDuckDBPaths w None
      in if dbPaths = [] then None
         else (case resolveDuckdbBin w of
                 None \<Rightarrow> None
               | Some bin \<Rightarrow> findLoop w objectName dbPaths))"

subsection \<open>Aggregate query over all files\<close>

text \<open>
  A result row is a JSON object: a finite map from column names to scalars. Reading a
  missing property gives \<^verbatim>\<open>undefined\<close>, here \<open>None\<close>. \<^verbatim>\<open>seen\<close> is the
  \<^verbatim>\<open>Set\<close> of the keys met so far.
\<close>

type_synonym jrow = "string \<rightharpoonup> jval"





subsection \<open>Safe path resolution\<close>

definition safeResolvePath :: "world \<Rightarrow> string \<Rightarrow> string option" where
  "safeResolvePath w relativePath =
     (case resolveWorkspaceRoot w of
        None \<Rightarrow> None
      | Some root \<Rightarrow>
          (let normalized = normalize relativePath
           in if prefix ''..'' normalized \<or> includesStr normalized ''/../'' then None
              else
                (let absolute = resolve (cwd w) [root, normalized]
                 in if \<not> prefix (resolve (cwd w) [root]) absolute then None
                    else if \<not> existsSync w absolute then None
                    else Some absolute)))"

section \<open>Pivot of entity-attribute-value rows\<close>

record eav_row =
  eav_entry_id :: string
  eav_created_at :: string
  eav_updated_at :: string
  eav_field_name :: string
  eav_value :: "string option"

text \<open>
  A pivoted record is a JavaScript object made by an object literal: its own properties,
  a map from names to values, and whether its prototype is still
  \<^verbatim>\<open>Object.prototype\<close>. The assignment \<^verbatim>\<open>obj[k] = v\<close> creates or updates the own
  property \<^verbatim>\<open>k\<close>, except for the name \<^verbatim>\<open>__proto__\<close> while the prototype is
  \<^verbatim>\<open>Object.prototype\<close>: there the inherited setter runs, which takes the prototype
  away when \<^verbatim>\<open>v\<close> is \<^verbatim>\<open>null\<close> and does nothing for a string; no own property
  is made. \<^verbatim>\<open>null\<close> is \<^const>\<open>JNull\<close>.
\<close>

record jsobj =
  props :: jrow
  plainProto :: bool

definition assignProp :: "string \<Rightarrow> jval \<Rightarrow> jsobj \<Rightarrow> jsobj" where
  "assignProp k v obj =
     (if k = ''__proto__'' \<and> plainProto obj then
        (if v = JNull then obj\<lparr>plainProto := False\<rparr> else obj)
      else obj\<lparr>props := (props obj)(k \<mapsto> v)\<rparr>)"

definition jsOfValue :: "string option \<Rightarrow> jval" where
  "jsOfValue v = (case v of None \<Rightarrow> JNull | Some s \<Rightarrow> JStr s)"

definition seedEntry :: "eav_row \<Rightarrow> jsobj" where
  "seedEntry row =
     \<lparr>props = [''entry_id'' \<mapsto> JStr (eav_entry_id row),
               ''created_at'' \<mapsto> JStr (eav_created_at row),
               ''updated_at'' \<mapsto> JStr (eav_updated_at row)],
      plainProto = True\<rparr>"

definition setField :: "eav_row \<Rightarrow> jsobj \<Rightarrow> jsobj" where
  "setField row entry =
     (if eav_field_name row \<noteq> []
      then assignProp (eav_field_name row) (jsOfValue (eav_value row)) entry
      else entry)"

text \<open>
  \<^verbatim>\<open>grouped\<close> is a \<^verbatim>\<open>Map\<close>, which keeps its keys in the order of their first
  insertion: an association list, updated in place.
\<close>

fun pivotLoop :: "eav_row list \<Rightarrow> (string \<times> jsobj) list \<Rightarrow> (string \<times> jsobj) list" where
  "pivotLoop [] grouped = grouped"
| "pivotLoop (row # rows) grouped =
     (case map_of grouped (eav_entry_id row) of
        None \<Rightarrow> pivotLoop rows (grouped @ [(eav_entry_id row, setField row (seedEntry row))])
      | Some entry \<Rightarrow>
          pivotLoop rows (AList.update (eav_entry_id row) (setField row entry) grouped))"

definition pivotEavRows :: "eav_row list \<Rightarrow> jsobj list" where
  "pivotEavRows rows = map snd (pivotLoop rows [])"

section \<open>Route handlers\<close>

record response =
  status :: nat
  body :: "(string \<times> jval) list"

definition jsonResponse :: "nat \<Rightarrow> (string \<times> jval) list \<Rightarrow> response" where
  "jsonResponse st b = \<lparr>status = st, body = b\<rparr>"

definition errorResponse :: "nat \<Rightarrow> string \<Rightarrow> response" where
  "errorResponse st msg = jsonResponse st [(''error'', JStr msg)]"

subsection \<open>Rename of an enum value\<close>

text \<open>
  A body field passes \<^verbatim>\<open>!v || typeof v !== "string"\<close> exactly when it is a
  non-empty string; \<open>None\<close> is a field that the body does not have.
\<close>

fun requiredString :: "jval option \<Rightarrow> string option" where
  "requiredString (Some (JStr s)) = (if s = [] then None else Some s)"
| "requiredString _ = None"

text \<open>
  \<^verbatim>\<open>SELECT id, enum_values, enum_colors FROM fields WHERE id = '<fieldId>' AND object_id = '<objectId>'\<close>
\<close>

definition selectEnumField :: "string \<Rightarrow> string \<Rightarrow> db \<Rightarrow> field_row list" where
  "selectEnumField fieldId objectId d =
     filter (\<lambda>f. fld_id f = fieldId \<and> fld_object_id f = objectId) (fields_tbl d)"

text \<open>
  \<^verbatim>\<open>JSON.stringify\<close> of an array of strings: the quotation mark, the backslash and
  the control characters are escaped, every other byte is kept.
\<close>

definition hexDigit :: "nat \<Rightarrow> char" where
  "hexDigit n = ''0123456789abcdef'' ! (n mod 16)"

definition jsonEscape :: "char \<Rightarrow> string" where
  "jsonEscape c =
     (let n = (of_char c :: nat)
      in if c = CHR 0x22 then [CHR 0x5C, CHR 0x22]
         else if c = CHR 0x5C then [CHR 0x5C, CHR 0x5C]
         else if n = 8 then [CHR 0x5C, CHR ''b'']
         else if n = 9 then [CHR 0x5C, CHR ''t'']
         else if n = 10 then [CHR 0x5C, CHR ''n'']
         else if n = 12 then [CHR 0x5C, CHR ''f'']
         else if n = 13 then [CHR 0x5C, CHR ''r'']
         else if n < 32 then [CHR 0x5C, CHR ''u'', CHR ''0'', CHR ''0'',
                              hexDigit (n div 16), hexDigit n]
         else [c])"

definition jsonString :: "string \<Rightarrow> string" where
  "jsonString s = [CHR 0x22] @ concat (map jsonEscape s) @ [CHR 0x22]"

definition JSON_stringify :: "string list \<Rightarrow> string" where
  "JSON_stringify xs = ''['' @ joinSep '','' (map jsonString xs) @ '']''"

text \<open>\<^verbatim>\<open>UPDATE fields SET enum_values = '<json>' WHERE id = '<fieldId>'\<close>\<close>

definition updateEnumValuesSql :: "string \<Rightarrow> string \<Rightarrow> string" where
  "updateEnumValuesSql fieldId newEnumJson =
     ''UPDATE fields SET enum_values = '' @ quoted (sqlEscape newEnumJson) @
     '' WHERE id = '' @ quoted (sqlEscape fieldId)"

definition updateEnumValues :: "string \<Rightarrow> string list \<Rightarrow> db \<Rightarrow> db" where
  "updateEnumValues fieldId newEnum d =
     d\<lparr>fields_tbl :=
         map (\<lambda>f. if fld_id f = fieldId then f\<lparr>fld_enum_values := Some (ArrayText newEnum)\<rparr> else f)
           (fields_tbl d)\<rparr>"

text \<open>
  \<^verbatim>\<open>UPDATE entry_fields SET value = '<new>' WHERE field_id = '<fieldId>' AND value = '<old>'\<close>
\<close>

definition updateEntryValuesSql :: "string \<Rightarrow> string \<Rightarrow> string \<Rightarrow> string" where
  "updateEntryValuesSql fieldId new old =
     ''UPDATE entry_fields SET value = '' @ quoted (sqlEscape new) @
     '' WHERE field_id = '' @ quoted (sqlEscape fieldId) @
     '' AND value = '' @ quoted (sqlEscape old)"

definition updateEntryValues :: "string \<Rightarrow> string \<Rightarrow> string \<Rightarrow> db \<Rightarrow> db" where
  "updateEntryValues fieldId new old d =
     d\<lparr>entry_fields_tbl :=
         map (\<lambda>r. if ef_field_id r = fieldId \<and> ef_value r = Some old then r\<lparr>ef_value := Some new\<rparr>
                  else r)
           (entry_fields_tbl d)\<rparr>"

text \<open>\<^verbatim>\<open>field.enum_values ? JSON.parse(field.enum_values) : []\<close>, \<open>None\<close> when it throws.\<close>

definition parseEnumValues :: "json_col option \<Rightarrow> string list option" where
  "parseEnumValues col =
     (case col of
        None \<Rightarrow> Some []
      | Some EmptyText \<Rightarrow> Some []
      | Some Unparsable \<Rightarrow> None
      | Some (ArrayText vs) \<Rightarrow> Some vs)"

text \<open>\<^verbatim>\<open>Array.prototype.indexOf\<close>, with \<open>None\<close> for \<^verbatim>\<open>-1\<close>.\<close>

fun indexOf :: "'a list \<Rightarrow> 'a \<Rightarrow> nat option" where
  "indexOf [] v = None"
| "indexOf (x # xs) v = (if x = v then Some 0 else map_option Suc (indexOf xs v))"

definition PATCH ::
  "world \<Rightarrow> string \<Rightarrow> string \<Rightarrow> jval option \<Rightarrow> jval option \<Rightarrow> response \<times> world"
where
  "PATCH w name fieldId bodyOldValue bodyNewValue =
     (if \<not> validObjectName name then (errorResponse 400 ''Invalid object name'', w)
      else case findDuckDBForObject w name of
        None \<Rightarrow> (errorResponse 404 ''DuckDB not found'', w)
      | Some dbFile \<Rightarrow>
         (case (requiredString bodyOldValue, requiredString bodyNewValue) of
            (Some oldValue, Some newValue) \<Rightarrow>
              if trim oldValue = trim newValue then
                (jsonResponse 200 [(''ok'', JBool True), (''changed'', JNum 0)], w)
              else
                (case duckdbQueryOnFile w dbFile (selectObjectId name) of
                   [] \<Rightarrow> (errorResponse 404 (''Object '' @ quoted name @ '' not found''), w)
                 | objectId # _ \<Rightarrow>
                    (case duckdbQueryOnFile w dbFile (selectEnumField fieldId objectId) of
                       [] \<Rightarrow> (errorResponse 404 ''Field not found'', w)
                     | field # _ \<Rightarrow>
                        (case parseEnumValues (fld_enum_values field) of
                           None \<Rightarrow> (errorResponse 500 ''Invalid enum_values in field'', w)
                         | Some enumValues \<Rightarrow>
                            (case indexOf enumValues (trim oldValue) of
                               None \<Rightarrow>
                                 (errorResponse 404
                                    (''Enum value '' @ quoted oldValue @ '' not found''), w)
                             | Some idx \<Rightarrow>
                                 if trim newValue \<in> set enumValues then
                                   (errorResponse 409
                                      (''Enum value '' @ quoted newValue @ '' already exists''), w)
                                 else
                                   (let newEnum = enumValues[idx := trim newValue];
                                        newEnumJson = JSON_stringify newEnum;
                                        w1 = snd (duckdbExecOnFile w dbFile
                                                    (updateEnumValuesSql fieldId newEnumJson)
                                                    (updateEnumValues fieldId newEnum));
                                        r = duckdbExecOnFile w1 dbFile
                                              (updateEntryValuesSql fieldId (trim newValue)
                                                 (trim oldValue))
                                              (updateEntryValues fieldId (trim newValue)
                                                 (trim oldValue))
                                    in (jsonResponse 200
                                          [(''ok'', JBool True), (''updated'', JBool (fst r))],
                                        snd r))))))
          | _ \<Rightarrow> (errorResponse 400 ''oldValue and newValue are required'', w)))"

subsection \<open>Bulk delete of entries\<close>

text \<open>The ids, each escaped and quoted, joined by commas.\<close>

definition idListOf :: "string list \<Rightarrow> string" where
  "idListOf entryIds = joinSep '','' (map (\<lambda>id. quoted (sqlEscape id)) entryIds)"

text \<open>\<^verbatim>\<open>DELETE FROM entry_fields WHERE entry_id IN (<ids>)\<close>\<close>

definition deleteEntryFieldsSql :: "string \<Rightarrow> string" where
  "deleteEntryFieldsSql idList = ''DELETE FROM entry_fields WHERE entry_id IN ('' @ idList @ '')''"

definition deleteEntryFields :: "string list \<Rightarrow> db \<Rightarrow> db" where
  "deleteEntryFields ids d =
     d\<lparr>entry_fields_tbl := filter (\<lambda>r. ef_entry_id r \<notin> set ids) (entry_fields_tbl d)\<rparr>"

text \<open>\<^verbatim>\<open>DELETE FROM entries WHERE id IN (<ids>) AND object_id = '<objectId>'\<close>\<close>

definition deleteEntriesSql :: "string \<Rightarrow> string \<Rightarrow> string" where
  "deleteEntriesSql idList objectId =
     ''DELETE FROM entries WHERE id IN ('' @ idList @ '') AND object_id = '' @
     quoted (sqlEscape objectId)"

definition deleteEntries :: "string list \<Rightarrow> string \<Rightarrow> db \<Rightarrow> db" where
  "deleteEntries ids objectId d =
     d\<lparr>entries_tbl :=
         filter (\<lambda>e. \<not> (ent_id e \<in> set ids \<and> ent_object_id e = objectId)) (entries_tbl d)\<rparr>"

text \<open>
  The body field \<^verbatim>\<open>entryIds\<close> is \<open>None\<close> when it is not an array, otherwise the
  array of id strings.
\<close>

definition POST :: "world \<Rightarrow> string \<Rightarrow> string list option \<Rightarrow> response \<times> world" where
  "POST w name bodyEntryIds =
     (if \<not> validObjectName name then (errorResponse 400 ''Invalid object name'', w)
      else case findDuckDBForObject w name of
        None \<Rightarrow> (errorResponse 404 ''DuckDB not found'', w)
      | Some dbFile \<Rightarrow>
         (case bodyEntryIds of
            None \<Rightarrow> (errorResponse 400 ''entryIds must be a non-empty array'', w)
          | Some entryIds \<Rightarrow>
             if entryIds = [] then (errorResponse 400 ''entryIds must be a non-empty array'', w)
             else
               (case duckdbQueryOnFile w dbFile (selectObjectId name) of
                  [] \<Rightarrow> (errorResponse 404 (''Object '' @ quoted name @ '' not found''), w)
                | objectId # _ \<Rightarrow>
                   (let idList = idListOf entryIds;
                        w1 = snd (duckdbExecOnFile w dbFile (deleteEntryFieldsSql idList)
                                    (deleteEntryFields entryIds));
                        w2 = snd (duckdbExecOnFile w1 dbFile (deleteEntriesSql idList objectId)
                                    (deleteEntries entryIds objectId))
                    in (jsonResponse 200
                          [(''ok'', JBool True), (''deletedCount'', JNum (int (length entryIds)))],
                        w2)))))"

section \<open>An example workspace\<close>

text \<open>
  A root database and a nested one, both with an object \<^verbatim>\<open>Foo\<close>. In the root
  database \<^verbatim>\<open>Foo\<close> has the enum field \<^verbatim>\<open>f1\<close> and three entries; \<^verbatim>\<open>Bar\<close>
  has one entry.
\<close>

definition demoRootDb :: db where
  \<open>demoRootDb =
     \<lparr>objects_tbl = [\<lparr>obj_id = ''o1'', obj_name = ''Foo''\<rparr>, \<lparr>obj_id = ''o2'', obj_name = ''Bar''\<rparr>],
      fields_tbl =
        [\<lparr>fld_id = ''f1'', fld_object_id = ''o1'',
          fld_enum_values = Some (ArrayText [''todo'', ''doing'', ''done'']),
          fld_enum_colors = Some ''["#aaa","#bbb","#ccc"]''\<rparr>,
         \<lparr>fld_id = ''f2'', fld_object_id = ''o2'',
          fld_enum_values = Some (ArrayText [''doing'']),
          fld_enum_colors = None\<rparr>],
      entries_tbl =
        [\<lparr>ent_id = ''e1'', ent_object_id = ''o1''\<rparr>,
         \<lparr>ent_id = ''e2'', ent_object_id = ''o1''\<rparr>,
         \<lparr>ent_id = ''e3'', ent_object_id = ''o1''\<rparr>,
         \<lparr>ent_id = ''b1'', ent_object_id = ''o2''\<rparr>],
      entry_fields_tbl =
        [\<lparr>ef_entry_id = ''e1'', ef_field_id = ''f1'', ef_value = Some ''doing''\<rparr>,
         \<lparr>ef_entry_id = ''e2'', ef_field_id = ''f1'', ef_value = Some ''todo''\<rparr>,
         \<lparr>ef_entry_id = ''e3'', ef_field_id = ''f1'', ef_value = Some ''doing''\<rparr>,
         \<lparr>ef_entry_id = ''b1'', ef_field_id = ''f2'', ef_value = Some ''doing''\<rparr>]\<rparr>\<close>

definition demoSubDb :: db where
  "demoSubDb =
     \<lparr>objects_tbl = [\<lparr>obj_id = ''x1'', obj_name = ''Foo''\<rparr>],
      fields_tbl = [],
      entries_tbl = [\<lparr>ent_id = ''e1'', ent_object_id = ''x1''\<rparr>],
      entry_fields_tbl = []\<rparr>"

definition demoWorld :: world where
  "demoWorld =
     \<lparr>env_OPENCLAW_WORKSPACE = Some ''/ws'',
      homedir = ''/home/u'',
      cwd = ''/app'',
      existsSync = (\<lambda>p. p \<in> set [''/ws'', ''/ws/workspace.duckdb'', ''/ws/crm/workspace.duckdb'',
                                    ''/ws/assets/ok.png'', ''/usr/bin/duckdb'']),
      readdirTree = (\<lambda>p. if p = ''/ws''
                          then Dir True [(''assets'', Dir True [(''ok.png'', Other)]),
                                         (''crm'', Dir True [(''workspace.duckdb'', Other)]),
                                         (''workspace.duckdb'', Other)]
                          else Other),
      which_duckdb = False,
      databases = [''/ws/workspace.duckdb'' \<mapsto> demoRootDb, ''/ws/crm/workspace.duckdb'' \<mapsto> demoSubDb],
      engineFails = (\<lambda>p sql. False)\<rparr>"


definition nulValue :: string where
  "nulValue = [CHR ''x'', CHR 0x00]"



section \<open>Notions for stating the properties\<close>

text \<open>
  Whether a call of \<^verbatim>\<open>duckdbExecOnFile\<close> with a statement of the given text runs
  the statement: the binary is found, the command is not refused, the engine opens the
  file and does not fail on the statement.
\<close>

definition execRuns :: "world \<Rightarrow> string \<Rightarrow> string \<Rightarrow> bool" where
  "execRuns w dbFilePath sql =
     (case resolveDuckdbBin w of
        None \<Rightarrow> False
      | Some bin \<Rightarrow>
          \<not> commandRefused (execCommand bin dbFilePath sql) \<and>
          databases w dbFilePath \<noteq> None \<and> \<not> engineFails w dbFilePath sql)"

text \<open>
  The number of \<^verbatim>\<open>entry_fields\<close> rows that differ between two states of a database
  whose rows correspond by position, as they do across an \<^verbatim>\<open>UPDATE\<close>.
\<close>

definition rowsChanged :: "db \<Rightarrow> db \<Rightarrow> nat" where
  "rowsChanged d d' =
     length (filter (\<lambda>p. fst p \<noteq> snd p) (zip (entry_fields_tbl d) (entry_fields_tbl d')))"









text \<open>The values that a record has under the given names: \<open>None\<close> where it has no such key.\<close>

definition ownValues :: "string list \<Rightarrow> jsobj \<Rightarrow> jval option list" where
  "ownValues names obj = map (props obj) names"

text \<open>
  The rows of the example: entry \<^verbatim>\<open>e1\<close> with \<^verbatim>\<open>name\<close> and \<^verbatim>\<open>age\<close>, entry
  \<^verbatim>\<open>e2\<close> with \<^verbatim>\<open>name\<close> only.
\<close>

definition demoEav :: "eav_row list" where
  "demoEav =
     [\<lparr>eav_entry_id = ''e1'', eav_created_at = ''t1'', eav_updated_at = ''u1'',
       eav_field_name = ''name'', eav_value = Some ''Alice''\<rparr>,
      \<lparr>eav_entry_id = ''e2'', eav_created_at = ''t2'', eav_updated_at = ''u2'',
       eav_field_name = ''name'', eav_value = Some ''Bob''\<rparr>,
      \<lparr>eav_entry_id = ''e1'', eav_created_at = ''t1'', eav_updated_at = ''u1'',
       eav_field_name = ''age'', eav_value = Some ''30''\<rparr>]"

text \<open>An entry with a field \<^verbatim>\<open>name\<close> and a field whose name is \<^verbatim>\<open>__proto__\<close>.\<close>

definition protoRows :: "eav_row list" where
  "protoRows =
     [\<lparr>eav_entry_id = ''e1'', eav_created_at = ''t1'', eav_updated_at = ''u1'',
       eav_field_name = ''name'', eav_value = Some ''Alice''\<rparr>,
      \<lparr>eav_entry_id = ''e1'', eav_created_at = ''t1'', eav_updated_at = ''u1'',
       eav_field_name = ''__proto__'', eav_value = Some ''x''\<rparr>]"

text \<open>The path of \<open>rel\<close> below the directory \<open>r\<close>, for a resolved \<open>r\<close>.\<close>

definition underRoot :: "string \<Rightarrow> string \<Rightarrow> string" where
  "underRoot r rel = (if r = ''/'' then r @ rel else r @ ''/'' @ rel)"

text \<open>The example with a directory beside the workspace root whose name extends the root's.\<close>

definition siblingWorld :: world where
  "siblingWorld = demoWorld\<lparr>existsSync := (\<lambda>p. p \<in> set [''/ws'', ''/ws-old/secret''])\<rparr>"

section \<open>Basic facts\<close>

lemma findLoop_Some:
  "findLoop w n ps = Some p \<Longrightarrow>
     p \<in> set ps \<and> (\<exists>d. databases w p = Some d \<and> selectObjectId n d \<noteq> [])"
  by (induction ps) (auto simp: runEngine_def split: option.splits if_splits)

lemma located:
  assumes "findDuckDBForObject w n = Some p"
  shows "(\<exists>bin. resolveDuckdbBin w = Some bin) \<and>
         (\<exists>d. databases w p = Some d \<and> selectObjectId n d \<noteq> [])"
  using assms findLoop_Some[of w n _ p]
  by (auto simp: findDuckDBForObject_def Let_def split: if_splits option.splits)

lemma resolveDuckdbBin_databases [simp]:
  "resolveDuckdbBin (w\<lparr>databases := x\<rparr>) = resolveDuckdbBin w"
  by (simp add: resolveDuckdbBin_def)

lemma engineFails_databases [simp]:
  "engineFails (w\<lparr>databases := x\<rparr>) = engineFails w"
  by simp

lemma execRuns_databases:
  "databases w f \<noteq> None \<Longrightarrow> execRuns (w\<lparr>databases := (databases w)(f \<mapsto> x)\<rparr>) f sql = execRuns w f sql"
  by (simp add: execRuns_def split: option.splits)

text \<open>One call of the exec bridge on a file that the engine can open.\<close>

lemma duckdbExecOnFile_step:
  assumes "databases w f = Some d"
  shows "duckdbExecOnFile w f sql stmt =
           (execRuns w f sql,
            w\<lparr>databases := (databases w)(f \<mapsto> (if execRuns w f sql then stmt d else d))\<rparr>)"
proof -
  have triv: "w\<lparr>databases := (databases w)(f \<mapsto> d)\<rparr> = w"
    using assms by (simp add: map_upd_triv)
  show ?thesis
    using assms triv
    by (simp add: duckdbExecOnFile_def execRuns_def split: option.splits)
qed


lemma indexOf_None: "(indexOf xs v = None) = (v \<notin> set xs)"
  by (induction xs) auto

lemma indexOf_present: "v \<in> set xs \<Longrightarrow> \<exists>i. indexOf xs v = Some i"
  using indexOf_None[of xs v] by (cases "indexOf xs v") auto

subsection \<open>The example workspace, evaluated\<close>

lemma demo_located: "findDuckDBForObject demoWorld ''Foo'' = Some ''/ws/workspace.duckdb''"
  by code_simp

lemma demo_root_db: "databases demoWorld ''/ws/workspace.duckdb'' = Some demoRootDb"
  by (simp add: demoWorld_def)

lemma demo_name: "validObjectName ''Foo''"
  by code_simp

lemma demo_object: "selectObjectId ''Foo'' demoRootDb = [''o1'']"
  by code_simp

lemma demo_field: "selectEnumField ''f1'' ''o1'' demoRootDb = [hd (fields_tbl demoRootDb)]"
  by code_simp

lemma demo_enum_values:
  "fld_enum_values (hd (fields_tbl demoRootDb)) = Some (ArrayText [''todo'', ''doing'', ''done''])"
  by code_simp

lemma demo_trims:
  "trim '' doing'' = ''doing''" "trim ''in_progress '' = ''in_progress''"
  "trim ''doing'' = ''doing''" "trim ''in_progress'' = ''in_progress''"
  "trim ''done'' = ''done''" "trim '' done'' = ''done''" "trim ''nope'' = ''nope''"
  "trim ''a'' = ''a''" "trim ''z'' = ''z''" "trim nulValue = nulValue" "trim [] = []"
  by code_simp+

text \<open>The no-break space U+00A0 is the two bytes C2 A0; it is stripped like a space.\<close>

lemma trim_no_break_space: "trim (''doing'' @ [CHR 0xC2, CHR 0xA0]) = ''doing''"
  by code_simp

section \<open>Rename of an enum value\<close>

text \<open>Two calls of the exec bridge in a row, on the same file.\<close>

lemma duckdbExecOnFile_twice:
  assumes db: "databases w f = Some d"
  shows "duckdbExecOnFile (snd (duckdbExecOnFile w f sql1 stmt1)) f sql2 stmt2 =
           (execRuns w f sql2,
            w\<lparr>databases := (databases w)(f \<mapsto>
               (if execRuns w f sql2
                then stmt2 (if execRuns w f sql1 then stmt1 d else d)
                else (if execRuns w f sql1 then stmt1 d else d)))\<rparr>)"
proof -
  let ?d1 = "if execRuns w f sql1 then stmt1 d else d"
  let ?w1 = "w\<lparr>databases := (databases w)(f \<mapsto> ?d1)\<rparr>"
  have one: "snd (duckdbExecOnFile w f sql1 stmt1) = ?w1"
    using duckdbExecOnFile_step[OF db, of sql1 stmt1] by simp
  have db1: "databases ?w1 f = Some ?d1" by simp
  have runs: "execRuns ?w1 f sql2 = execRuns w f sql2"
    using db by (intro execRuns_databases) simp
  show ?thesis
    unfolding one duckdbExecOnFile_step[OF db1] runs by simp
qed

lemma PATCH_writes:
  assumes name: "validObjectName name"
    and loc: "findDuckDBForObject w name = Some dbFile"
    and db: "databases w dbFile = Some d"
    and obj: "selectObjectId name d = objectId # os"
    and fld: "selectEnumField fieldId objectId d = field # fs"
    and arr: "fld_enum_values field = Some (ArrayText enumValues)"
    and old: "oldValue \<noteq> []" and new: "newValue \<noteq> []"
    and io: "indexOf enumValues (trim oldValue) = Some i"
    and fresh: "trim newValue \<notin> set enumValues"
  shows "PATCH w name fieldId (Some (JStr oldValue)) (Some (JStr newValue)) =
     (jsonResponse 200
        [(''ok'', JBool True),
         (''updated'', JBool (execRuns w dbFile
                                (updateEntryValuesSql fieldId (trim newValue) (trim oldValue))))],
      w\<lparr>databases := (databases w)(dbFile \<mapsto>
         (if execRuns w dbFile (updateEntryValuesSql fieldId (trim newValue) (trim oldValue))
          then updateEntryValues fieldId (trim newValue) (trim oldValue)
                 (if execRuns w dbFile
                       (updateEnumValuesSql fieldId
                          (JSON_stringify (enumValues[i := trim newValue])))
                  then updateEnumValues fieldId (enumValues[i := trim newValue]) d else d)
          else (if execRuns w dbFile
                     (updateEnumValuesSql fieldId
                        (JSON_stringify (enumValues[i := trim newValue])))
                then updateEnumValues fieldId (enumValues[i := trim newValue]) d else d)))\<rparr>)"
proof -
  from located[OF loc] obtain bin where bin: "resolveDuckdbBin w = Some bin" by blast
  have "trim oldValue \<in> set enumValues"
    using io indexOf_None[of enumValues "trim oldValue"] by auto
  with fresh have ne: "trim oldValue \<noteq> trim newValue" by auto
  show ?thesis
    using name loc db obj fld arr old new ne io fresh bin
    by (simp add: PATCH_def duckdbQueryOnFile_def runEngine_def parseEnumValues_def Let_def
        duckdbExecOnFile_twice[OF db])
qed


subsection \<open>The example, evaluated\<close>

lemma demo_exec_runs:
  "execRuns demoWorld ''/ws/workspace.duckdb''
     (updateEnumValuesSql ''f1'' (JSON_stringify [''todo'', ''in_progress'', ''done'']))"
  "execRuns demoWorld ''/ws/workspace.duckdb'' (updateEntryValuesSql ''f1'' ''in_progress'' ''doing'')"
  by code_simp+

lemma demo_exec_refused:
  "\<not> execRuns demoWorld ''/ws/workspace.duckdb'' (updateEntryValuesSql ''f1'' nulValue ''doing'')"
  by code_simp

subsection \<open>A statement that is too long\<close>










lemma resolveWorkspaceRoot_databases [simp]:
  "resolveWorkspaceRoot (w\<lparr>databases := x\<rparr>) = resolveWorkspaceRoot w"
  by (simp add: resolveWorkspaceRoot_def)

lemma discoverResults_databases [simp]:
  "discoverResults (w\<lparr>databases := x\<rparr>) r = discoverResults w r"
  by (simp add: discoverResults_def)

lemma discoverDuckDBPaths_databases [simp]:
  "discoverDuckDBPaths (w\<lparr>databases := x\<rparr>) r = discoverDuckDBPaths w r"
  by (simp add: discoverDuckDBPaths_def split: option.splits)












text \<open>
  Claim C2, as the code has it. On a rename that passes every check, the response is
  \<^verbatim>\<open>{ok: true, updated: <flag>}\<close>, where the flag is the boolean that
  \<^verbatim>\<open>duckdbExecOnFile\<close> returns for the cascading \<^verbatim>\<open>UPDATE\<close>: true when the
  statement ran, false when its call failed, whatever the number of rows that it changed.
\<close>

theorem C2_updated_is_exec_flag:
  assumes name: "validObjectName name"
    and loc: "findDuckDBForObject w name = Some dbFile"
    and db: "databases w dbFile = Some d"
    and obj: "selectObjectId name d = objectId # os"
    and fld: "selectEnumField fieldId objectId d = field # fs"
    and arr: "fld_enum_values field = Some (ArrayText enumValues)"
    and old: "oldValue \<noteq> []" and new: "newValue \<noteq> []"
    and present: "trim oldValue \<in> set enumValues"
    and fresh: "trim newValue \<notin> set enumValues"
  shows "fst (PATCH w name fieldId (Some (JStr oldValue)) (Some (JStr newValue))) =
           jsonResponse 200
             [(''ok'', JBool True),
              (''updated'', JBool (execRuns w dbFile
                 (updateEntryValuesSql fieldId (trim newValue) (trim oldValue))))]"
proof -
  obtain i where io: "indexOf enumValues (trim oldValue) = Some i"
    using indexOf_present[OF present] by blast
  show ?thesis
    unfolding PATCH_writes[OF name loc db obj fld arr old new io fresh] by simp
qed

theorem C2_updated_is_exec_flag_witness:
  "trim ''doing'' \<in> set [''todo'', ''doing'', ''done'']
   \<and> trim ''in_progress'' \<notin> set [''todo'', ''doing'', ''done'']
   \<and> trim nulValue \<notin> set [''todo'', ''doing'', ''done'']
   \<and> fst (PATCH demoWorld ''Foo'' ''f1'' (Some (JStr ''doing'')) (Some (JStr ''in_progress''))) =
       jsonResponse 200 [(''ok'', JBool True), (''updated'', JBool True)]
   \<and> fst (PATCH demoWorld ''Foo'' ''f1'' (Some (JStr ''doing'')) (Some (JStr nulValue))) =
       jsonResponse 200 [(''ok'', JBool True), (''updated'', JBool False)]"
proof -
  have p: "trim ''doing'' \<in> set [''todo'', ''doing'', ''done'']"
    and f: "trim ''in_progress'' \<notin> set [''todo'', ''doing'', ''done'']"
    and g: "trim nulValue \<notin> set [''todo'', ''doing'', ''done'']"
    by code_simp+
  have ne: "''doing'' \<noteq> []" "''in_progress'' \<noteq> []" "nulValue \<noteq> []"
    by (simp_all add: nulValue_def)
  have "fst (PATCH demoWorld ''Foo'' ''f1'' (Some (JStr ''doing'')) (Some (JStr ''in_progress''))) =
       jsonResponse 200 [(''ok'', JBool True), (''updated'', JBool True)]"
    using C2_updated_is_exec_flag[OF demo_name demo_located demo_root_db demo_object demo_field
            demo_enum_values ne(1) ne(2) p f] demo_exec_runs(2)
    by (simp add: demo_trims)
  moreover have
    "fst (PATCH demoWorld ''Foo'' ''f1'' (Some (JStr ''doing'')) (Some (JStr nulValue))) =
       jsonResponse 200 [(''ok'', JBool True), (''updated'', JBool False)]"
    using C2_updated_is_exec_flag[OF demo_name demo_located demo_root_db demo_object demo_field
            demo_enum_values ne(1) ne(3) p g] demo_exec_refused
    by (simp add: demo_trims)
  ultimately show ?thesis
    using p f g by simp
qed

text \<open>
  The claim as the specification words it fails: renaming \<^verbatim>\<open>doing\<close> in the example
  changes two rows, and the response carries \<^verbatim>\<open>updated: true\<close>, not the number 2.
\<close>

theorem C2_row_count_counterexample:
  "body (fst (PATCH demoWorld ''Foo'' ''f1'' (Some (JStr ''doing'')) (Some (JStr ''in_progress''))))
     = [(''ok'', JBool True), (''updated'', JBool True)]
   \<and> map_option (rowsChanged demoRootDb)
        (databases (snd (PATCH demoWorld ''Foo'' ''f1'' (Some (JStr ''doing''))
                           (Some (JStr ''in_progress'')))) ''/ws/workspace.duckdb'') = Some 2
   \<and> body (fst (PATCH demoWorld ''Foo'' ''f1'' (Some (JStr ''doing'')) (Some (JStr ''in_progress''))))
     \<noteq> [(''ok'', JBool True), (''updated'', JNum 2)]"
  by code_simp

text \<open>What the handler answers, and that it writes nothing, when the new value is taken.\<close>

lemma PATCH_taken:
  assumes loc: "findDuckDBForObject w name = Some dbFile"
    and db: "databases w dbFile = Some d"
    and obj: "selectObjectId name d = objectId # os"
    and fld: "selectEnumField fieldId objectId d = field # fs"
    and arr: "parseEnumValues (fld_enum_values field) = Some enumValues"
    and dup: "trim newValue \<in> set enumValues"
  shows "snd (PATCH w name fieldId bodyOldValue (Some (JStr newValue))) = w"
proof -
  from located[OF loc] obtain bin where bin: "resolveDuckdbBin w = Some bin" by blast
  show ?thesis
    using loc db obj fld arr dup bin
    by (cases "requiredString bodyOldValue")
       (simp_all add: PATCH_def duckdbQueryOnFile_def runEngine_def
          split: option.splits)
qed

text \<open>
  Claim C8, as the code has it. When the trimmed new value is already in the array of
  the field, nothing is written, whatever the old value of the request: the world after
  the call is the world before it. The answer of a request that passes validation is the
  conflict, status 409, when the trimmed old value is in the array too and differs from
  the trimmed new value; it is status 404 when the trimmed old value is not in the array,
  and the successful no-op when the two trimmed values are equal.
\<close>

theorem C8_duplicate_conflict:
  assumes loc: "findDuckDBForObject w name = Some dbFile"
    and db: "databases w dbFile = Some d"
    and obj: "selectObjectId name d = objectId # os"
    and fld: "selectEnumField fieldId objectId d = field # fs"
    and arr: "parseEnumValues (fld_enum_values field) = Some enumValues"
    and dup: "trim newValue \<in> set enumValues"
  shows "snd (PATCH w name fieldId bodyOldValue (Some (JStr newValue))) = w
         \<and> (validObjectName name \<and> oldValue \<noteq> [] \<and> newValue \<noteq> [] \<longrightarrow>
              fst (PATCH w name fieldId (Some (JStr oldValue)) (Some (JStr newValue))) =
                (if trim oldValue = trim newValue
                 then jsonResponse 200 [(''ok'', JBool True), (''changed'', JNum 0)]
                 else if trim oldValue \<in> set enumValues
                 then errorResponse 409 (''Enum value '' @ quoted newValue @ '' already exists'')
                 else errorResponse 404 (''Enum value '' @ quoted oldValue @ '' not found'')))"
proof -
  from located[OF loc] obtain bin where bin: "resolveDuckdbBin w = Some bin" by blast
  have a: "snd (PATCH w name fieldId bodyOldValue (Some (JStr newValue))) = w"
    by (rule PATCH_taken[OF loc db obj fld arr dup])
  have b: "fst (PATCH w name fieldId (Some (JStr oldValue)) (Some (JStr newValue))) =
                (if trim oldValue = trim newValue
                 then jsonResponse 200 [(''ok'', JBool True), (''changed'', JNum 0)]
                 else if trim oldValue \<in> set enumValues
                 then errorResponse 409 (''Enum value '' @ quoted newValue @ '' already exists'')
                 else errorResponse 404 (''Enum value '' @ quoted oldValue @ '' not found''))"
    if v: "validObjectName name" "oldValue \<noteq> []" "newValue \<noteq> []"
  proof (cases "indexOf enumValues (trim oldValue)")
    case None
    then have "trim oldValue \<notin> set enumValues" by (simp add: indexOf_None)
    with None show ?thesis
      using v loc db obj fld arr dup bin
      by (simp add: PATCH_def duckdbQueryOnFile_def runEngine_def)
  next
    case (Some i)
    then have "trim oldValue \<in> set enumValues"
      using indexOf_None[of enumValues "trim oldValue"] by auto
    with Some show ?thesis
      using v loc db obj fld arr dup bin
      by (simp add: PATCH_def duckdbQueryOnFile_def runEngine_def)
  qed
  from a b show ?thesis by blast
qed

theorem C8_duplicate_conflict_witness:
  "trim '' done'' \<in> set [''todo'', ''doing'', ''done'']
   \<and> snd (PATCH demoWorld ''Foo'' ''f1'' (Some (JStr ''doing'')) (Some (JStr '' done''))) = demoWorld
   \<and> snd (PATCH demoWorld ''Foo'' ''f1'' None (Some (JStr '' done''))) = demoWorld
   \<and> fst (PATCH demoWorld ''Foo'' ''f1'' (Some (JStr ''doing'')) (Some (JStr '' done''))) =
       errorResponse 409 (''Enum value '' @ quoted '' done'' @ '' already exists'')"
proof -
  have d: "trim '' done'' \<in> set [''todo'', ''doing'', ''done'']"
    by (simp add: demo_trims)
  have arr: "parseEnumValues (fld_enum_values (hd (fields_tbl demoRootDb))) =
               Some [''todo'', ''doing'', ''done'']"
    by (simp add: demo_enum_values parseEnumValues_def)
  note c8 = C8_duplicate_conflict[OF demo_located demo_root_db demo_object demo_field arr d]
  have "snd (PATCH demoWorld ''Foo'' ''f1'' (Some (JStr ''doing'')) (Some (JStr '' done''))) = demoWorld"
    using c8[of "Some (JStr ''doing'')"] by blast
  moreover have "snd (PATCH demoWorld ''Foo'' ''f1'' None (Some (JStr '' done''))) = demoWorld"
    using c8[of None] by blast
  moreover have
    "fst (PATCH demoWorld ''Foo'' ''f1'' (Some (JStr ''doing'')) (Some (JStr '' done''))) =
       errorResponse 409 (''Enum value '' @ quoted '' done'' @ '' already exists'')"
    using c8[of None "''doing''"] demo_name by (simp add: demo_trims)
  ultimately show ?thesis using d by simp
qed

text \<open>
  The claim as the specification words it fails in two ways. With the new value
  \<^verbatim>\<open>done\<close> present in the array, an old value that is absent is answered with 404,
  and an old value that equals the new one after trimming is answered with the
  successful no-op.
\<close>

theorem C8_not_always_conflict_counterexample:
  "selectEnumField ''f1'' ''o1'' demoRootDb = [hd (fields_tbl demoRootDb)]
   \<and> fld_enum_values (hd (fields_tbl demoRootDb)) = Some (ArrayText [''todo'', ''doing'', ''done''])
   \<and> trim ''done'' \<in> set [''todo'', ''doing'', ''done'']
   \<and> trim '' done'' \<in> set [''todo'', ''doing'', ''done'']
   \<and> status (fst (PATCH demoWorld ''Foo'' ''f1'' (Some (JStr ''nope'')) (Some (JStr ''done'')))) = 404
   \<and> PATCH demoWorld ''Foo'' ''f1'' (Some (JStr ''done'')) (Some (JStr '' done'')) =
       (jsonResponse 200 [(''ok'', JBool True), (''changed'', JNum 0)], demoWorld)"
proof -
  have "status (fst (PATCH demoWorld ''Foo'' ''f1'' (Some (JStr ''nope'')) (Some (JStr ''done''))))
          = 404"
    by code_simp
  moreover have
    "fst (PATCH demoWorld ''Foo'' ''f1'' (Some (JStr ''done'')) (Some (JStr '' done''))) =
       jsonResponse 200 [(''ok'', JBool True), (''changed'', JNum 0)]"
    by code_simp
  moreover have
    "snd (PATCH demoWorld ''Foo'' ''f1'' (Some (JStr ''done'')) (Some (JStr '' done''))) = demoWorld"
    by (simp add: PATCH_def demo_located demo_trims split: prod.splits option.splits)
  ultimately show ?thesis
    by (simp add: demo_field demo_enum_values demo_trims prod_eq_iff)
qed

text \<open>
  Claim C9, as the code has it. A request whose old and new values are equal after
  trimming writes nothing: the world after the call, every table of every file, is the
  world before it. When the request passes the checks that come before the comparison,
  a valid object name, an object that is located in a database file, and old and new
  values that are non-empty strings, it is answered with
  \<^verbatim>\<open>{ok: true, changed: 0}\<close>.
\<close>

theorem C9_rename_to_itself_is_noop:
  assumes "trim oldValue = trim newValue"
  shows "snd (PATCH w name fieldId (Some (JStr oldValue)) (Some (JStr newValue))) = w
         \<and> (validObjectName name \<and> findDuckDBForObject w name \<noteq> None
              \<and> oldValue \<noteq> [] \<and> newValue \<noteq> [] \<longrightarrow>
            fst (PATCH w name fieldId (Some (JStr oldValue)) (Some (JStr newValue))) =
              jsonResponse 200 [(''ok'', JBool True), (''changed'', JNum 0)])"
  using assms by (auto simp add: PATCH_def split: option.splits)

theorem C9_rename_to_itself_is_noop_witness:
  "trim (''doing'' @ [CHR 0xC2, CHR 0xA0]) = trim '' doing''
   \<and> PATCH demoWorld ''Foo'' ''f1'' (Some (JStr (''doing'' @ [CHR 0xC2, CHR 0xA0])))
        (Some (JStr '' doing'')) =
       (jsonResponse 200 [(''ok'', JBool True), (''changed'', JNum 0)], demoWorld)"
proof -
  have t: "trim (''doing'' @ [CHR 0xC2, CHR 0xA0]) = trim '' doing''"
    by code_simp
  have "''doing'' @ [CHR 0xC2, CHR 0xA0] \<noteq> []" "'' doing'' \<noteq> []" by simp_all
  then show ?thesis
    using C9_rename_to_itself_is_noop[OF t, of demoWorld "''Foo''" "''f1''"]
      demo_name demo_located t
    by (simp add: prod_eq_iff)
qed

text \<open>
  The claim as the specification words it fails: with old and new values that are
  equal after trimming, a request with an invalid object name, a request for an object
  that no file has, and a request whose new value is empty are answered with 400, 404
  and 400, not with the success.
\<close>

theorem C9_not_always_success_counterexample:
  "trim ''doing'' = trim '' doing''
   \<and> trim '' '' = trim []
   \<and> PATCH demoWorld ''1Foo'' ''f1'' (Some (JStr ''doing'')) (Some (JStr '' doing'')) =
       (errorResponse 400 ''Invalid object name'', demoWorld)
   \<and> PATCH demoWorld ''Nope'' ''f1'' (Some (JStr ''doing'')) (Some (JStr '' doing'')) =
       (errorResponse 404 ''DuckDB not found'', demoWorld)
   \<and> PATCH demoWorld ''Foo'' ''f1'' (Some (JStr '' '')) (Some (JStr [])) =
       (errorResponse 400 ''oldValue and newValue are required'', demoWorld)"
proof -
  have "fst (PATCH demoWorld ''1Foo'' ''f1'' (Some (JStr ''doing'')) (Some (JStr '' doing''))) =
       errorResponse 400 ''Invalid object name''"
    "fst (PATCH demoWorld ''Nope'' ''f1'' (Some (JStr ''doing'')) (Some (JStr '' doing''))) =
       errorResponse 404 ''DuckDB not found''"
    "fst (PATCH demoWorld ''Foo'' ''f1'' (Some (JStr '' '')) (Some (JStr []))) =
       errorResponse 400 ''oldValue and newValue are required''"
    "trim '' '' = trim []"
    by code_simp+
  moreover have
    "snd (PATCH demoWorld ''1Foo'' ''f1'' (Some (JStr ''doing'')) (Some (JStr '' doing''))) = demoWorld"
    "snd (PATCH demoWorld ''Nope'' ''f1'' (Some (JStr ''doing'')) (Some (JStr '' doing''))) = demoWorld"
    "snd (PATCH demoWorld ''Foo'' ''f1'' (Some (JStr '' '')) (Some (JStr []))) = demoWorld"
    by (simp_all add: PATCH_def demo_trims split: prod.splits option.splits)
  ultimately show ?thesis
    by (simp add: demo_trims prod_eq_iff)
qed

section \<open>Bulk delete of entries\<close>

lemma POST_run:
  assumes name: "validObjectName name"
    and loc: "findDuckDBForObject w name = Some dbFile"
    and db: "databases w dbFile = Some d"
    and obj: "selectObjectId name d = objectId # os"
    and ids: "entryIds \<noteq> []"
  shows "POST w name (Some entryIds) =
           (jsonResponse 200
              [(''ok'', JBool True), (''deletedCount'', JNum (int (length entryIds)))],
            w\<lparr>databases := (databases w)(dbFile \<mapsto>
                 (if execRuns w dbFile (deleteEntriesSql (idListOf entryIds) objectId)
                  then deleteEntries entryIds objectId
                         (if execRuns w dbFile (deleteEntryFieldsSql (idListOf entryIds))
                          then deleteEntryFields entryIds d else d)
                  else (if execRuns w dbFile (deleteEntryFieldsSql (idListOf entryIds))
                        then deleteEntryFields entryIds d else d)))\<rparr>)"
proof -
  from located[OF loc] obtain bin where bin: "resolveDuckdbBin w = Some bin" by blast
  show ?thesis
    using name loc db obj ids bin
    by (simp add: POST_def duckdbQueryOnFile_def runEngine_def Let_def
          duckdbExecOnFile_twice[OF db] del: if_split cong: if_cong)
qed

lemma deleted_fewer:
  assumes dist: "distinct (map ent_id es)"
    and miss: "i \<in> set ids" "\<not> (\<exists>e \<in> set es. ent_id e = i \<and> ent_object_id e = oid)"
  shows "length (filter (\<lambda>e. ent_id e \<in> set ids \<and> ent_object_id e = oid) es) < length ids"
proof -
  let ?D = "filter (\<lambda>e. ent_id e \<in> set ids \<and> ent_object_id e = oid) es"
  have "distinct (map ent_id ?D)"
    using dist by (rule distinct_map_filter)
  then have "card (set (map ent_id ?D)) = length (map ent_id ?D)"
    by (rule distinct_card)
  then have eq: "length ?D = card (set (map ent_id ?D))"
    by simp
  have sub: "set (map ent_id ?D) \<subseteq> set ids - {i}"
    using miss by auto
  have "card (set (map ent_id ?D)) \<le> card (set ids - {i})"
    using sub by (rule card_mono[OF finite_Diff[OF finite_set]])
  also have "\<dots> < card (set ids)"
    using miss(1) by (intro card_Diff1_less) simp_all
  also have "\<dots> \<le> length ids" by (rule card_length)
  finally show ?thesis using eq by simp
qed






text \<open>
  Claim C10. The \<^verbatim>\<open>deletedCount\<close> of a successful bulk delete is the length of the
  \<^verbatim>\<open>entryIds\<close> array. The number of \<^verbatim>\<open>entries\<close> rows removed never enters it: when
  entry ids are unique in the table and some given id is not the id of an entry of the
  object, fewer rows are removed than \<^verbatim>\<open>deletedCount\<close> reports.
\<close>

theorem C10_deleted_count_is_request_length:
  assumes name: "validObjectName name"
    and loc: "findDuckDBForObject w name = Some dbFile"
    and db: "databases w dbFile = Some d"
    and obj: "selectObjectId name d = objectId # os"
    and ids: "entryIds \<noteq> []"
  shows "fst (POST w name (Some entryIds)) =
           jsonResponse 200
             [(''ok'', JBool True), (''deletedCount'', JNum (int (length entryIds)))]
         \<and> (\<exists>d'. databases (snd (POST w name (Some entryIds))) dbFile = Some d'
              \<and> length (entries_tbl d') \<le> length (entries_tbl d)
              \<and> (distinct (map ent_id (entries_tbl d)) \<longrightarrow>
                   (\<exists>i \<in> set entryIds. \<not> (\<exists>e \<in> set (entries_tbl d).
                        ent_id e = i \<and> ent_object_id e = objectId)) \<longrightarrow>
                   length (entries_tbl d) - length (entries_tbl d') < length entryIds))"
proof -
  let ?P = "\<lambda>e. ent_id e \<in> set entryIds \<and> ent_object_id e = objectId"
  let ?d1 = "if execRuns w dbFile (deleteEntryFieldsSql (idListOf entryIds))
             then deleteEntryFields entryIds d else d"
  let ?d' = "if execRuns w dbFile (deleteEntriesSql (idListOf entryIds) objectId)
             then deleteEntries entryIds objectId ?d1 else ?d1"
  have run: "POST w name (Some entryIds) =
           (jsonResponse 200
              [(''ok'', JBool True), (''deletedCount'', JNum (int (length entryIds)))],
            w\<lparr>databases := (databases w)(dbFile \<mapsto> ?d')\<rparr>)"
    by (rule POST_run[OF assms])
  have ent: "entries_tbl ?d' = filter (\<lambda>e. \<not> ?P e) (entries_tbl d) \<or> entries_tbl ?d' = entries_tbl d"
    by (simp add: deleteEntries_def deleteEntryFields_def)
  have len: "length (entries_tbl d) - length (entries_tbl ?d') \<le> length (filter ?P (entries_tbl d))"
    using ent
  proof
    assume e: "entries_tbl ?d' = filter (\<lambda>e. \<not> ?P e) (entries_tbl d)"
    show ?thesis
      using sum_length_filter_compl[of ?P "entries_tbl d"] unfolding e by simp
  next
    assume e: "entries_tbl ?d' = entries_tbl d"
    show ?thesis unfolding e by simp
  qed
  have le: "length (entries_tbl ?d') \<le> length (entries_tbl d)"
    using ent
  proof
    assume e: "entries_tbl ?d' = filter (\<lambda>e. \<not> ?P e) (entries_tbl d)"
    show ?thesis unfolding e by (rule length_filter_le)
  next
    assume e: "entries_tbl ?d' = entries_tbl d"
    show ?thesis unfolding e by simp
  qed
  have "distinct (map ent_id (entries_tbl d)) \<longrightarrow>
          (\<exists>i \<in> set entryIds. \<not> (\<exists>e \<in> set (entries_tbl d).
               ent_id e = i \<and> ent_object_id e = objectId)) \<longrightarrow>
          length (entries_tbl d) - length (entries_tbl ?d') < length entryIds"
  proof (intro impI)
    assume dist: "distinct (map ent_id (entries_tbl d))"
      and "\<exists>i \<in> set entryIds. \<not> (\<exists>e \<in> set (entries_tbl d).
               ent_id e = i \<and> ent_object_id e = objectId)"
    then obtain i where "i \<in> set entryIds"
      "\<not> (\<exists>e \<in> set (entries_tbl d). ent_id e = i \<and> ent_object_id e = objectId)"
      by blast
    with dist have "length (filter ?P (entries_tbl d)) < length entryIds"
      by (rule deleted_fewer)
    with len show "length (entries_tbl d) - length (entries_tbl ?d') < length entryIds"
      by (rule le_less_trans)
  qed
  with run le show ?thesis
    by (intro conjI exI[of _ ?d']) (simp_all del: if_split cong: if_cong)
qed

theorem C10_deleted_count_is_request_length_witness:
  "distinct (map ent_id (entries_tbl demoRootDb))
   \<and> (\<exists>i \<in> set [''e1'', ''b1'', ''zz'']. \<not> (\<exists>e \<in> set (entries_tbl demoRootDb).
          ent_id e = i \<and> ent_object_id e = ''o1''))
   \<and> fst (POST demoWorld ''Foo'' (Some [''e1'', ''b1'', ''zz''])) =
       jsonResponse 200 [(''ok'', JBool True), (''deletedCount'', JNum 3)]
   \<and> (\<exists>d'. databases (snd (POST demoWorld ''Foo'' (Some [''e1'', ''b1'', ''zz''])))
              ''/ws/workspace.duckdb'' = Some d'
        \<and> length (entries_tbl demoRootDb) - length (entries_tbl d') < 3)"
proof -
  have dist: "distinct (map ent_id (entries_tbl demoRootDb))"
    by (simp add: demoRootDb_def)
  have miss: "\<exists>i \<in> set [''e1'', ''b1'', ''zz'']. \<not> (\<exists>e \<in> set (entries_tbl demoRootDb).
                 ent_id e = i \<and> ent_object_id e = ''o1'')"
    by (simp add: demoRootDb_def)
  have "[''e1'', ''b1'', ''zz''] \<noteq> []" by simp
  note r = C10_deleted_count_is_request_length[OF demo_name demo_located demo_root_db
             demo_object this]
  from r[THEN conjunct2] obtain d' where
    d: "databases (snd (POST demoWorld ''Foo'' (Some [''e1'', ''b1'', ''zz''])))
          ''/ws/workspace.duckdb'' = Some d'"
    and imp: "distinct (map ent_id (entries_tbl demoRootDb)) \<longrightarrow>
       (\<exists>i \<in> set [''e1'', ''b1'', ''zz'']. \<not> (\<exists>e \<in> set (entries_tbl demoRootDb).
            ent_id e = i \<and> ent_object_id e = ''o1'')) \<longrightarrow>
       length (entries_tbl demoRootDb) - length (entries_tbl d') < length [''e1'', ''b1'', ''zz'']"
    by blast
  from imp dist miss
  have "length (entries_tbl demoRootDb) - length (entries_tbl d') < length [''e1'', ''b1'', ''zz'']"
    by blast
  then have less: "length (entries_tbl demoRootDb) - length (entries_tbl d') < 3"
    by simp
  from r[THEN conjunct1]
  have resp: "fst (POST demoWorld ''Foo'' (Some [''e1'', ''b1'', ''zz''])) =
       jsonResponse 200 [(''ok'', JBool True), (''deletedCount'', JNum 3)]"
    by simp
  from d less have "\<exists>d'. databases (snd (POST demoWorld ''Foo'' (Some [''e1'', ''b1'', ''zz''])))
              ''/ws/workspace.duckdb'' = Some d'
        \<and> length (entries_tbl demoRootDb) - length (entries_tbl d') < 3"
    by blast
  with dist miss resp show ?thesis by blast
qed

section \<open>Locating the file that owns an object\<close>










lemma demo_root: "resolveWorkspaceRoot demoWorld = Some ''/ws''"
  by code_simp






section \<open>Aggregate query with a dedupe key\<close>






















section \<open>Pivot of entity-attribute-value rows\<close>

text \<open>
  Claim C6. On the rows of the example the pivot yields the two records of the
  specification, the second without a key \<^verbatim>\<open>age\<close>. On an entry that has a populated
  field named \<^verbatim>\<open>__proto__\<close> it yields one record with the three seed keys and the key
  \<^verbatim>\<open>name\<close>, and without a key for the field \<^verbatim>\<open>__proto__\<close>: the assignment
  \<^verbatim>\<open>entry[row.field_name] = row.value\<close> runs the inherited setter, which makes no
  own property.
\<close>

theorem C6_proto_field_has_no_key:
  "map (ownValues [''entry_id'', ''created_at'', ''updated_at'', ''name'', ''age''])
     (pivotEavRows demoEav) =
     [[Some (JStr ''e1''), Some (JStr ''t1''), Some (JStr ''u1''), Some (JStr ''Alice''),
       Some (JStr ''30'')],
      [Some (JStr ''e2''), Some (JStr ''t2''), Some (JStr ''u2''), Some (JStr ''Bob''), None]]
   \<and> map eav_field_name protoRows = [''name'', ''__proto__'']
   \<and> map eav_value protoRows = [Some ''Alice'', Some ''x'']
   \<and> map (ownValues [''entry_id'', ''created_at'', ''updated_at'', ''name'', ''__proto__''])
       (pivotEavRows protoRows) =
       [[Some (JStr ''e1''), Some (JStr ''t1''), Some (JStr ''u1''), Some (JStr ''Alice''), None]]"
  by code_simp

section \<open>Safe path resolution\<close>

lemma splitOn_nonempty [simp]: "splitOn c s \<noteq> []"
  by (induction s) (auto split: list.splits)

lemma splitOn_free: "s \<in> set (splitOn c xs) \<Longrightarrow> c \<notin> set s"
  by (induction xs arbitrary: s) (auto split: if_splits list.splits)

lemma splitOn_append_sep: "splitOn c (xs @ c # ys) = splitOn c xs @ splitOn c ys"
  by (induction xs) (auto split: list.splits)

lemma splitOn_no_sep: "c \<notin> set s \<Longrightarrow> splitOn c s = [s]"
  by (induction s) auto

lemma splitOn_joinSep:
  "segs \<noteq> [] \<Longrightarrow> \<forall>s \<in> set segs. c \<notin> set s \<Longrightarrow> splitOn c (joinSep [c] segs) = segs"
proof (induction segs)
  case Nil
  then show ?case by simp
next
  case (Cons s segs)
  show ?case
  proof (cases segs)
    case Nil
    with Cons.prems show ?thesis by (simp add: splitOn_no_sep)
  next
    case (Cons t ss)
    with Cons.prems Cons.IH have ih: "splitOn c (joinSep [c] (t # ss)) = t # ss"
      by simp
    have "joinSep [c] (s # t # ss) = s @ c # joinSep [c] (t # ss)"
      by simp
    then have "splitOn c (joinSep [c] (s # t # ss)) = splitOn c s @ splitOn c (joinSep [c] (t # ss))"
      by (simp only: splitOn_append_sep)
    also have "\<dots> = [s] @ (t # ss)"
      using Cons.prems ih by (simp add: splitOn_no_sep)
    finally show ?thesis using Cons by simp
  qed
qed

lemma normStep_free:
  "\<forall>s \<in> set stk. c \<notin> set s \<and> s \<noteq> [] \<Longrightarrow> c \<notin> set seg \<Longrightarrow>
     \<forall>s \<in> set (normStep allow stk seg). c \<notin> set s \<and> s \<noteq> []"
  by (cases stk) (auto simp: normStep_def)

lemma foldl_normStep_free:
  "\<forall>s \<in> set stk. c \<notin> set s \<and> s \<noteq> [] \<Longrightarrow> \<forall>s \<in> set segs. c \<notin> set s  \<Longrightarrow>
     \<forall>s \<in> set (foldl (normStep allow) stk segs). c \<notin> set s \<and> s \<noteq> []"
proof (induction segs arbitrary: stk)
  case Nil
  then show ?case by simp
next
  case (Cons a segs)
  have "\<forall>s \<in> set (normStep allow stk a). c \<notin> set s \<and> s \<noteq> []"
    using Cons.prems by (intro normStep_free) auto
  moreover have "\<forall>s \<in> set segs. c \<notin> set s"
    using Cons.prems(2) by simp
  ultimately have "\<forall>s \<in> set (foldl (normStep allow) (normStep allow stk a) segs). c \<notin> set s \<and> s \<noteq> []"
    by (rule Cons.IH)
  then show ?case by simp
qed

lemma normSegments_free:
  assumes "s \<in> set (normSegments p allow)"
  shows "CHR ''/'' \<notin> set s \<and> s \<noteq> []"
proof -
  have "\<forall>s \<in> set (splitOn CHR ''/'' p). CHR ''/'' \<notin> set s"
    using splitOn_free by blast
  then have "\<forall>s \<in> set (foldl (normStep allow) [] (splitOn CHR ''/'' p)). CHR ''/'' \<notin> set s \<and> s \<noteq> []"
    by (intro foldl_normStep_free) simp_all
  with assms show ?thesis
    unfolding normSegments_def set_rev by blast
qed

lemma normStep_dots_last:
  "(''..'' \<in> set stk \<longrightarrow> last stk = ''..'') \<Longrightarrow>
     (''..'' \<in> set (normStep allow stk seg) \<longrightarrow> last (normStep allow stk seg) = ''..'')"
  by (cases stk) (auto simp: normStep_def split: if_splits)

lemma foldl_normStep_dots_last:
  "(''..'' \<in> set stk \<longrightarrow> last stk = ''..'') \<Longrightarrow>
     (''..'' \<in> set (foldl (normStep allow) stk segs) \<longrightarrow>
        last (foldl (normStep allow) stk segs) = ''..'')"
proof (induction segs arbitrary: stk)
  case Nil
  then show ?case by simp
next
  case (Cons a segs)
  show ?case
    using Cons.IH[OF normStep_dots_last[OF Cons.prems]] by simp
qed

lemma normSegments_dots_first:
  assumes "''..'' \<in> set (normSegments p allow)"
  shows "\<exists>rest. normSegments p allow = ''..'' # rest"
proof -
  let ?stk = "foldl (normStep allow) [] (splitOn CHR ''/'' p)"
  from assms have m: "''..'' \<in> set ?stk" by (simp add: normSegments_def)
  then have "last ?stk = ''..''"
    using foldl_normStep_dots_last[of "[]" allow "splitOn CHR ''/'' p"] by simp
  moreover from m have "?stk \<noteq> []" by auto
  ultimately have "hd (rev ?stk) = ''..''" by (simp add: hd_rev)
  with \<open>?stk \<noteq> []\<close> show ?thesis
    by (cases "rev ?stk") (auto simp: normSegments_def)
qed

lemma normStep_no_dots:
  "''..'' \<notin> set stk \<Longrightarrow> ''..'' \<notin> set (normStep False stk seg)"
  by (cases stk) (auto simp: normStep_def split: if_splits)

lemma foldl_normStep_no_dots:
  "''..'' \<notin> set stk \<Longrightarrow> ''..'' \<notin> set (foldl (normStep False) stk segs)"
proof (induction segs arbitrary: stk)
  case Nil
  then show ?case by simp
next
  case (Cons a segs)
  from Cons.prems have "''..'' \<notin> set (normStep False stk a)"
    by (rule normStep_no_dots)
  then have "''..'' \<notin> set (foldl (normStep False) (normStep False stk a) segs)"
    by (rule Cons.IH)
  then show ?case by simp
qed

lemma normSegments_no_dots: "''..'' \<notin> set (normSegments p False)"
proof -
  have "''..'' \<notin> set (foldl (normStep False) [] (splitOn CHR ''/'' p))"
    by (rule foldl_normStep_no_dots) simp
  then show ?thesis
    unfolding normSegments_def set_rev .
qed

lemma joinSep_dots_prefix: "prefix ''..'' (joinSep sep (''..'' # rest))"
  by (cases rest) simp_all

lemma joinSep_empty: "joinSep sep segs = [] \<Longrightarrow> \<forall>s \<in> set segs. s \<noteq> [] \<Longrightarrow> segs = []"
  by (induction sep segs rule: joinSep.induct) auto


lemma splitOn_leading_sep: "splitOn c (c # xs) = [] # splitOn c xs"
  by simp

lemma splitOn_trailing_sep: "splitOn c (xs @ [c]) = splitOn c xs @ [[]]"
  using splitOn_append_sep[of c xs "[]"] by simp

lemma normalizeString_segments:
  assumes "normalizeString p allow \<noteq> []"
  shows "splitOn CHR ''/'' (normalizeString p allow) = normSegments p allow"
proof -
  from assms have "normSegments p allow \<noteq> []"
    by (auto simp: normalizeString_def)
  moreover have "\<forall>s \<in> set (normSegments p allow). CHR ''/'' \<notin> set s"
    using normSegments_free by blast
  ultimately show ?thesis
    unfolding normalizeString_def using splitOn_joinSep[of "normSegments p allow" "CHR ''/''"]
    by simp
qed

lemma normalize_dots_prefix:
  assumes "''..'' \<in> set (splitOn CHR ''/'' (normalize p))"
  shows "prefix ''..'' (normalize p)"
proof (cases "p = []")
  case True
  with assms show ?thesis by (simp add: normalize_def)
next
  case False
  let ?n = "normalizeString p (\<not> isAbsolute p)"
  show ?thesis
  proof (cases "?n = []")
    case True
    with assms False show ?thesis
      by (simp add: normalize_def Let_def split: if_splits)
  next
    case nonempty: False
    have segs: "splitOn CHR ''/'' ?n = normSegments p (\<not> isAbsolute p)"
      using nonempty by (rule normalizeString_segments)
    have "set (splitOn CHR ''/'' (normalize p)) \<subseteq> insert [] (set (normSegments p (\<not> isAbsolute p)))"
      using False nonempty segs
      by (auto simp: normalize_def Let_def splitOn_trailing_sep[of "CHR ''/''", simplified])
    with assms have dots: "''..'' \<in> set (normSegments p (\<not> isAbsolute p))"
      by auto
    show ?thesis
    proof (cases "isAbsolute p")
      case True
      with dots normSegments_no_dots[of p] show ?thesis by simp
    next
      case rel: False
      from normSegments_dots_first[OF dots] obtain rest
        where "normSegments p (\<not> isAbsolute p) = ''..'' # rest" by blast
      then have "prefix ''..'' ?n"
        unfolding normalizeString_def using joinSep_dots_prefix[of "''/''" rest] by simp
      then have "prefix ''..'' (?n @ ''/'')"
        by (rule prefix_prefix)
      with \<open>prefix ''..'' ?n\<close> False nonempty rel show ?thesis
        by (simp add: normalize_def Let_def)
    qed
  qed
qed

lemma safeResolvePath_traversal:
  assumes "''..'' \<in> set (splitOn CHR ''/'' (normalize p))"
  shows "safeResolvePath w p = None"
  using normalize_dots_prefix[OF assms]
  by (simp add: safeResolvePath_def Let_def split: option.splits)

lemma resolveLoop_absolute:
  "isAbsolute c \<Longrightarrow> snd (resolveLoop (xs @ [c]) acc)"
  by (induction xs arbitrary: acc) (auto simp: isAbsolute_def)

lemma resolve_absolute:
  assumes "isAbsolute c"
  shows "isAbsolute (resolve c args)"
proof -
  obtain rp ra where r: "resolveLoop (rev args @ [c]) [] = (rp, ra)"
    by (cases "resolveLoop (rev args @ [c]) []")
  with resolveLoop_absolute[OF assms, of "rev args" "[]"] have "ra" by simp
  with r show ?thesis
    by (simp add: resolve_def isAbsolute_def Let_def)
qed

lemma safeResolvePath_Some:
  assumes "safeResolvePath w p = Some a" and "resolveWorkspaceRoot w = Some root"
  shows "a = resolve (cwd w) [root, normalize p] \<and> prefix (resolve (cwd w) [root]) a
         \<and> existsSync w a"
  using assms by (auto simp: safeResolvePath_def Let_def split: if_splits)


lemma resolveLoop_acc:
  "resolveLoop ps acc = (fst (resolveLoop ps []) @ acc, snd (resolveLoop ps []))"
proof (induction ps arbitrary: acc)
  case Nil
  then show ?case by simp
next
  case (Cons p ps)
  consider "p = []" | "p \<noteq> []" "isAbsolute p" | "p \<noteq> []" "\<not> isAbsolute p"
    by blast
  then show ?case
  proof cases
    case 1
    have "resolveLoop ps acc = (fst (resolveLoop ps []) @ acc, snd (resolveLoop ps []))"
      by (rule Cons.IH)
    with 1 show ?thesis by simp
  next
    case 2
    then show ?thesis by simp
  next
    case 3
    have a: "resolveLoop ps (p @ ''/'' @ acc) =
            (fst (resolveLoop ps []) @ p @ ''/'' @ acc, snd (resolveLoop ps []))"
      by (rule Cons.IH)
    have b: "resolveLoop ps (p @ ''/'' @ []) =
            (fst (resolveLoop ps []) @ p @ ''/'' @ [], snd (resolveLoop ps []))"
      by (rule Cons.IH)
    have "resolveLoop (p # ps) acc = resolveLoop ps (p @ ''/'' @ acc)"
      using 3 by simp
    moreover have "resolveLoop (p # ps) [] = resolveLoop ps (p @ ''/'' @ [])"
      using 3 by simp
    ultimately show ?thesis
      unfolding a b by simp
  qed
qed

lemma resolveLoop_ends_sep:
  "isAbsolute c \<Longrightarrow> \<exists>x. fst (resolveLoop (xs @ [c]) []) = x @ ''/''"
proof (induction xs)
  case Nil
  then show ?case by (simp add: isAbsolute_def)
next
  case (Cons p xs)
  then obtain x where x: "fst (resolveLoop (xs @ [c]) []) = x @ ''/''" by blast
  consider "p = []" | "p \<noteq> []" "isAbsolute p" | "p \<noteq> []" "\<not> isAbsolute p"
    by blast
  then show ?case
  proof cases
    case 1
    with x show ?thesis by simp
  next
    case 2
    then show ?thesis by simp
  next
    case 3
    have "resolveLoop (xs @ [c]) (p @ ''/'' @ []) =
            (fst (resolveLoop (xs @ [c]) []) @ p @ ''/'' @ [], snd (resolveLoop (xs @ [c]) []))"
      by (rule resolveLoop_acc)
    then have "fst (resolveLoop (xs @ [c]) (p @ ''/'' @ [])) = (x @ ''/'' @ p) @ ''/''"
      using x by simp
    moreover have "resolveLoop ((p # xs) @ [c]) [] = resolveLoop (xs @ [c]) (p @ ''/'' @ [])"
      using 3 by simp
    ultimately show ?thesis by metis
  qed
qed

lemma joinSep_append:
  "ys \<noteq> [] \<Longrightarrow> zs \<noteq> [] \<Longrightarrow> joinSep sep (ys @ zs) = joinSep sep ys @ sep @ joinSep sep zs"
proof (induction ys)
  case Nil
  then show ?case by simp
next
  case (Cons y ys)
  show ?case
  proof (cases ys)
    case Nil
    with Cons.prems show ?thesis by (cases zs) simp_all
  next
    case (Cons a as)
    with Cons.IH Cons.prems show ?thesis by simp
  qed
qed

lemma normSegments_under:
  "normSegments (x @ CHR ''/'' # ''assets/ok.png/'') False =
     normSegments (x @ ''/'') False @ [''assets'', ''ok.png'']"
proof -
  have "splitOn CHR ''/'' ''assets/ok.png/'' = [''assets'', ''ok.png'', []]"
    by simp
  then have a: "splitOn CHR ''/'' (x @ CHR ''/'' # ''assets/ok.png/'') =
           splitOn CHR ''/'' x @ [''assets'', ''ok.png'', []]"
    by (simp only: splitOn_append_sep)
  have b: "splitOn CHR ''/'' (x @ ''/'') = splitOn CHR ''/'' x @ [[]]"
    by (rule splitOn_trailing_sep)
  show ?thesis
    unfolding normSegments_def a b by (simp add: normStep_def)
qed

lemma resolve_under:
  assumes cwd: "isAbsolute c"
  shows "resolve c [root, ''assets/ok.png''] = underRoot (resolve c [root]) ''assets/ok.png''"
proof -
  obtain x where x: "fst (resolveLoop ([root] @ [c]) []) = x @ ''/''"
    using resolveLoop_ends_sep[OF cwd, of "[root]"] by blast
  have ab: "snd (resolveLoop ([root] @ [c]) [])"
    using cwd by (rule resolveLoop_absolute)
  have one: "resolveLoop (rev [root] @ [c]) [] = (x @ ''/'', True)"
    using x ab by (simp add: prod_eq_iff)
  have "resolveLoop (rev [root, ''assets/ok.png''] @ [c]) [] =
          resolveLoop ([root] @ [c]) ''assets/ok.png/''"
    by (simp add: isAbsolute_def)
  also have "\<dots> = (fst (resolveLoop ([root] @ [c]) []) @ ''assets/ok.png/'',
                     snd (resolveLoop ([root] @ [c]) []))"
    by (rule resolveLoop_acc)
  also have "\<dots> = (x @ CHR ''/'' # ''assets/ok.png/'', True)"
    using x ab by simp
  finally have two: "resolveLoop (rev [root, ''assets/ok.png''] @ [c]) [] =
                       (x @ CHR ''/'' # ''assets/ok.png/'', True)" .
  let ?s = "normSegments (x @ ''/'') False"
  have r1: "resolve c [root] = ''/'' @ joinSep ''/'' ?s"
    unfolding resolve_def one by (simp add: normalizeString_def)
  have r2: "resolve c [root, ''assets/ok.png''] =
              ''/'' @ joinSep ''/'' (?s @ [''assets'', ''ok.png''])"
    unfolding resolve_def two by (simp add: normalizeString_def normSegments_under)
  show ?thesis
  proof (cases "?s = []")
    case True
    with r1 r2 show ?thesis by (simp add: underRoot_def)
  next
    case False
    then have "joinSep ''/'' ?s \<noteq> []"
      using joinSep_empty[of "''/''" ?s] normSegments_free by blast
    moreover have "joinSep ''/'' (?s @ [''assets'', ''ok.png'']) =
                     joinSep ''/'' ?s @ ''/'' @ joinSep ''/'' [''assets'', ''ok.png'']"
      using False by (intro joinSep_append) simp_all
    ultimately show ?thesis
      using r1 r2 by (simp add: underRoot_def)
  qed
qed

lemma normalize_plain: "normalize ''assets/ok.png'' = ''assets/ok.png''"
  by code_simp

lemma plain_guards:
  "\<not> prefix ''..'' ''assets/ok.png''" "\<not> includesStr ''assets/ok.png'' ''/../''"
  by code_simp+

lemma prefix_underRoot: "prefix r (underRoot r rel)"
  by (simp add: underRoot_def)

lemma safeResolvePath_plain:
  assumes "resolveWorkspaceRoot w = Some root" and "isAbsolute (cwd w)"
    and "existsSync w (underRoot (resolve (cwd w) [root]) ''assets/ok.png'')"
  shows "safeResolvePath w ''assets/ok.png'' =
           Some (underRoot (resolve (cwd w) [root]) ''assets/ok.png'')"
  using assms
  by (simp add: safeResolvePath_def normalize_plain plain_guards resolve_under prefix_underRoot)

lemma traversal_examples:
  "''..'' \<in> set (splitOn CHR ''/'' (normalize ''../../etc/passwd''))"
  "''..'' \<in> set (splitOn CHR ''/'' (normalize ''a/../../b''))"
  by code_simp+


text \<open>
  Claim C5. Whenever the normalized input has a segment \<^verbatim>\<open>..\<close>, the result is
  \<^verbatim>\<open>null\<close>; so it is for \<^verbatim>\<open>../../etc/passwd\<close> and \<^verbatim>\<open>a/../../b\<close>.
  Every path that is returned has the resolved workspace root as a prefix, and is absolute
  when the current directory is. For the input \<^verbatim>\<open>assets/ok.png\<close> the result is the
  path of that name below the resolved root, when that path exists.
\<close>

theorem C5_safe_resolve_rejects_traversal:
  "(''..'' \<in> set (splitOn CHR ''/'' (normalize p)) \<longrightarrow> safeResolvePath w p = None)
   \<and> safeResolvePath w ''../../etc/passwd'' = None
   \<and> safeResolvePath w ''a/../../b'' = None
   \<and> (\<forall>a root. safeResolvePath w p = Some a \<longrightarrow> resolveWorkspaceRoot w = Some root \<longrightarrow>
          prefix (resolve (cwd w) [root]) a \<and> (isAbsolute (cwd w) \<longrightarrow> isAbsolute a))
   \<and> (\<forall>root. resolveWorkspaceRoot w = Some root \<longrightarrow> isAbsolute (cwd w) \<longrightarrow>
          existsSync w (underRoot (resolve (cwd w) [root]) ''assets/ok.png'') \<longrightarrow>
          safeResolvePath w ''assets/ok.png'' =
            Some (underRoot (resolve (cwd w) [root]) ''assets/ok.png''))"
proof -
  have a: "''..'' \<in> set (splitOn CHR ''/'' (normalize p)) \<longrightarrow> safeResolvePath w p = None"
    using safeResolvePath_traversal by blast
  have b: "safeResolvePath w ''../../etc/passwd'' = None"
    using traversal_examples(1) by (rule safeResolvePath_traversal)
  have c: "safeResolvePath w ''a/../../b'' = None"
    using traversal_examples(2) by (rule safeResolvePath_traversal)
  have d: "\<forall>a root. safeResolvePath w p = Some a \<longrightarrow> resolveWorkspaceRoot w = Some root \<longrightarrow>
          prefix (resolve (cwd w) [root]) a \<and> (isAbsolute (cwd w) \<longrightarrow> isAbsolute a)"
    using safeResolvePath_Some[of w p] resolve_absolute[of "cwd w"] by metis
  have e: "\<forall>root. resolveWorkspaceRoot w = Some root \<longrightarrow> isAbsolute (cwd w) \<longrightarrow>
          existsSync w (underRoot (resolve (cwd w) [root]) ''assets/ok.png'') \<longrightarrow>
          safeResolvePath w ''assets/ok.png'' =
            Some (underRoot (resolve (cwd w) [root]) ''assets/ok.png'')"
    using safeResolvePath_plain by blast
  from a b c d e show ?thesis by blast
qed

lemma demo_resolved_root: "resolve (cwd demoWorld) [''/ws''] = ''/ws''"
  by code_simp

lemma demo_cwd: "isAbsolute (cwd demoWorld)"
  by code_simp

lemma demo_png: "existsSync demoWorld ''/ws/assets/ok.png''"
  by code_simp

lemma demo_traversal: "''..'' \<in> set (splitOn CHR ''/'' (normalize ''assets/../../secret''))"
  by code_simp

theorem C5_safe_resolve_rejects_traversal_witness:
  "''..'' \<in> set (splitOn CHR ''/'' (normalize ''assets/../../secret''))
   \<and> safeResolvePath demoWorld ''assets/../../secret'' = None
   \<and> resolveWorkspaceRoot demoWorld = Some ''/ws''
   \<and> isAbsolute (cwd demoWorld)
   \<and> existsSync demoWorld ''/ws/assets/ok.png''
   \<and> safeResolvePath demoWorld ''assets/ok.png'' = Some ''/ws/assets/ok.png''
   \<and> prefix (resolve (cwd demoWorld) [''/ws'']) ''/ws/assets/ok.png''
   \<and> isAbsolute ''/ws/assets/ok.png''"
proof -
  have u: "underRoot (resolve (cwd demoWorld) [''/ws'']) ''assets/ok.png'' = ''/ws/assets/ok.png''"
    by (simp add: demo_resolved_root underRoot_def)
  note r1 = C5_safe_resolve_rejects_traversal[of "''assets/../../secret''" demoWorld]
  note r2 = C5_safe_resolve_rejects_traversal[of "''assets/ok.png''" demoWorld]
  from r1 demo_traversal have n: "safeResolvePath demoWorld ''assets/../../secret'' = None"
    by blast
  from r2 demo_root demo_cwd demo_png u
  have s: "safeResolvePath demoWorld ''assets/ok.png'' = Some ''/ws/assets/ok.png''"
    by metis
  from r2 s demo_root demo_cwd
  have "prefix (resolve (cwd demoWorld) [''/ws'']) ''/ws/assets/ok.png''
        \<and> isAbsolute ''/ws/assets/ok.png''"
    by blast
  with n s demo_traversal demo_root demo_cwd demo_png show ?thesis by blast
qed

text \<open>
  The prefix test compares strings, not path segments: an absolute input in a directory
  beside the root whose name begins with the root's name passes it.
\<close>

lemma sibling_prefix:
  "resolveWorkspaceRoot siblingWorld = Some ''/ws''
   \<and> safeResolvePath siblingWorld ''/ws-old/secret'' = Some ''/ws-old/secret''"
  by code_simp

end
